theory Spec2Isabelle
  imports Main
begin

section \<open>JavaScript values\<close>

text \<open>
  The scripts run on Node.js. Strings are modelled as character lists, a thrown value as an
  \<open>Error\<close> object with its \<open>message\<close>, and the values that flow through the upload
  parameters as the small universe \<open>jsval\<close>: \<open>undefined\<close>, a string, a member
  inherited from \<open>Object.prototype\<close>, the two kinds of file body, and a plain object
  of string fields (the metadata). Numbers, booleans and \<open>null\<close> never reach these places
  in the scripts and are left out.
\<close>

datatype js_error = Error (message: string)

datatype jsval =
    Undefined
  | Str string
  | Inherited string
  | ReadStream string
  | Buffer string
  | Object "(string \<times> string) list"

text \<open>Truthiness, and the operator \<open>a || b\<close>.\<close>

fun truthy :: "jsval \<Rightarrow> bool" where
  "truthy Undefined = False"
| "truthy (Str s) = (s \<noteq> [])"
| "truthy (Inherited n) = True"
| "truthy (ReadStream p) = True"
| "truthy (Buffer b) = True"
| "truthy (Object kvs) = True"

definition js_or :: "jsval \<Rightarrow> jsval \<Rightarrow> jsval" where
  "js_or a b = (if truthy a then a else b)"

text \<open>
  Reading a property of an object literal: an own property wins, then the members every
  object inherits from \<open>Object.prototype\<close>, then \<open>undefined\<close>.
\<close>

definition object_prototype_names :: "string list" where
  "object_prototype_names =
     [''constructor'', ''__proto__'', ''__defineGetter__'', ''__defineSetter__'',
      ''__lookupGetter__'', ''__lookupSetter__'', ''hasOwnProperty'', ''isPrototypeOf'',
      ''propertyIsEnumerable'', ''toLocaleString'', ''toString'', ''valueOf'']"

definition obj_get :: "(string \<times> string) list \<Rightarrow> string \<Rightarrow> jsval" where
  "obj_get props k =
     (case map_of props k of
        Some v \<Rightarrow> Str v
      | None \<Rightarrow> if k \<in> set object_prototype_names then Inherited k else Undefined)"

text \<open>
  \<open>String.prototype.toLowerCase\<close> on the ASCII letters; every other character is kept.
\<close>

definition lower_char :: "char \<Rightarrow> char" where
  "lower_char c =
     (case map_of (zip ''ABCDEFGHIJKLMNOPQRSTUVWXYZ'' ''abcdefghijklmnopqrstuvwxyz'') c of
        Some d \<Rightarrow> d
      | None \<Rightarrow> c)"

definition toLowerCase :: "string \<Rightarrow> string" where
  "toLowerCase s = map lower_char s"

section \<open>path.extname\<close>

text \<open>
  \<open>path.extname\<close> belongs to Node's library, not to the repository. It is written out
  here as the POSIX implementation does it: one scan of the path from its last character
  to its first, with the five variables of that loop, so that content types can be
  computed for concrete paths.
\<close>

record ext_scan =
  startDot :: int
  startPart :: int
  endPos :: int
  matchedSlash :: bool
  preDotState :: int

definition ext_init :: ext_scan where
  "ext_init = \<lparr>startDot = -1, startPart = 0, endPos = -1, matchedSlash = True, preDotState = 0\<rparr>"

definition ext_mark_end :: "nat \<Rightarrow> ext_scan \<Rightarrow> ext_scan" where
  "ext_mark_end i s =
     (if endPos s = -1 then s\<lparr>matchedSlash := False, endPos := int i + 1\<rparr> else s)"

definition ext_see :: "char \<Rightarrow> nat \<Rightarrow> ext_scan \<Rightarrow> ext_scan" where
  "ext_see code i s =
     (if code = CHR ''.'' then
        (if startDot s = -1 then s\<lparr>startDot := int i\<rparr>
         else if preDotState s \<noteq> 1 then s\<lparr>preDotState := 1\<rparr>
         else s)
      else if startDot s \<noteq> -1 then s\<lparr>preDotState := -1\<rparr>
      else s)"

text \<open>\<open>ext_loop path n s\<close> runs the loop for \<open>i = n - 1\<close> down to \<open>0\<close>.\<close>

fun ext_loop :: "string \<Rightarrow> nat \<Rightarrow> ext_scan \<Rightarrow> ext_scan" where
  "ext_loop path 0 s = s"
| "ext_loop path (Suc i) s =
     (if path ! i = CHR ''/'' then
        (if \<not> matchedSlash s then s\<lparr>startPart := int i + 1\<rparr>
         else ext_loop path i s)
      else ext_loop path i (ext_see (path ! i) i (ext_mark_end i s)))"

definition slice :: "string \<Rightarrow> int \<Rightarrow> int \<Rightarrow> string" where
  "slice s a b = take (nat b - nat a) (drop (nat a) s)"

definition extname :: "string \<Rightarrow> string" where
  "extname path =
     (let s = ext_loop path (length path) ext_init in
      if startDot s = -1 \<or> endPos s = -1 \<or> preDotState s = 0 \<or>
         (preDotState s = 1 \<and> startDot s = endPos s - 1 \<and> startDot s = startPart s + 1)
      then []
      else slice path (startDot s) (endPos s))"

section \<open>getContentType\<close>

definition contentTypes :: "(string \<times> string) list" where
  "contentTypes =
     [(''.txt'', ''text/plain''),
      (''.html'', ''text/html''),
      (''.css'', ''text/css''),
      (''.js'', ''application/javascript''),
      (''.json'', ''application/json''),
      (''.png'', ''image/png''),
      (''.jpg'', ''image/jpeg''),
      (''.jpeg'', ''image/jpeg''),
      (''.gif'', ''image/gif''),
      (''.svg'', ''image/svg+xml''),
      (''.pdf'', ''application/pdf''),
      (''.doc'', ''application/msword''),
      (''.docx'', ''application/vnd.openxmlformats-officedocument.wordprocessingml.document''),
      (''.xls'', ''application/vnd.ms-excel''),
      (''.xlsx'', ''application/vnd.openxmlformats-officedocument.spreadsheetml.sheet''),
      (''.zip'', ''application/zip''),
      (''.mp4'', ''video/mp4''),
      (''.mp3'', ''audio/mpeg''),
      (''.wav'', ''audio/wav''),
      (''.webm'', ''video/webm'')]"

definition getContentType :: "string \<Rightarrow> jsval" where
  "getContentType filePath =
     (let ext = toLowerCase (extname filePath) in
      js_or (obj_get contentTypes ext) (Str ''application/octet-stream''))"

section \<open>Printing numbers\<close>

text \<open>A non-negative integer inside a template string prints in decimal.\<close>

definition digit_char :: "nat \<Rightarrow> char" where
  "digit_char d = ''0123456789'' ! d"

function show_nat :: "nat \<Rightarrow> string" where
  "show_nat n = (if n < 10 then [digit_char n] else show_nat (n div 10) @ [digit_char (n mod 10)])"
  by pat_completeness auto
termination
  by (relation "measure id") auto

text \<open>
  \<open>((Date.now() - startTime) / 1000).toFixed(2)\<close> for an elapsed time of \<open>d\<close>
  milliseconds. The division is the IEEE double division: with \<open>e\<close> the exponent that
  puts \<open>d * 2^e / 1000\<close> between \<open>2^52\<close> and \<open>2^53\<close>, the quotient is the
  integer \<open>m\<close> nearest to \<open>d * 2^e / 1000\<close> (ties to even) over \<open>2^e\<close>. \<open>toFixed(2)\<close> then takes
  the integer nearest to a hundred times that double, the larger one on a tie, and prints
  it with two decimals, after a minus sign for a negative number. Exact for elapsed times
  below \<open>2^53\<close> milliseconds, which covers every difference of two \<open>Date.now()\<close> values.
\<close>

definition double_exponent :: "nat \<Rightarrow> nat" where
  "double_exponent d = length (takeWhile (\<lambda>k. d * 2 ^ k < 1000 * 2 ^ 52) [0..<63])"

definition double_mantissa :: "nat \<Rightarrow> nat" where
  "double_mantissa d =
     (let q = d * 2 ^ double_exponent d; m0 = q div 1000; r = q mod 1000 in
      if 500 < r \<or> (r = 500 \<and> odd m0) then m0 + 1 else m0)"

definition hundredths :: "nat \<Rightarrow> nat" where
  "hundredths d =
     (200 * double_mantissa d + 2 ^ double_exponent d) div 2 ^ (double_exponent d + 1)"

definition fixed2 :: "nat \<Rightarrow> string" where
  "fixed2 n = show_nat (n div 100) @ ''.'' @ [digit_char (n mod 100 div 10), digit_char (n mod 10)]"

definition toFixed2_seconds :: "int \<Rightarrow> string" where
  "toFixed2_seconds d =
     (if d < 0 then ''-'' @ fixed2 (hundredths (nat (- d))) else fixed2 (hundredths (nat d)))"

section \<open>The world outside the scripts\<close>

text \<open>
  Everything the scripts ask of their surroundings is a field of \<open>world\<close>:
  \<open>process.env\<close>; the answers of \<open>fs.existsSync\<close>, \<open>fs.statSync\<close> (of which only
  \<open>size\<close> is read by the single upload) and \<open>fs.readFileSync\<close> for a path, each a
  value or the error it throws; \<open>path.join\<close>; and the S3 client. \<open>send w k req\<close>
  is what the client answers to the request \<open>req\<close> when \<open>k\<close> requests were sent
  before it: the milliseconds that pass between the two \<open>Date.now()\<close> readings around
  the call, and the response or the error the promise rejects with. The file system and
  the environment do not change while an operation runs.
\<close>

record response =
  ETag :: "string option"

record send_result =
  elapsed :: int
  reply :: "js_error + response"

record world =
  env :: "string \<Rightarrow> string option"
  existsSync :: "string \<Rightarrow> bool"
  statSync :: "string \<Rightarrow> js_error + nat"
  readFileSync :: "string \<Rightarrow> js_error + string"
  path_join :: "string \<Rightarrow> string \<Rightarrow> string"
  send :: "nat \<Rightarrow> (string \<rightharpoonup> jsval) \<Rightarrow> send_result"

text \<open>
  What an operation does to the world is a trace: the calls of the single-file upload with
  their two arguments, the requests handed to the client, the waits of the retry loop in
  milliseconds, and the two counts of the printed upload summary. Other console output is
  not modelled.
\<close>

datatype event =
    Call string string
  | Send "string \<rightharpoonup> jsval"
  | Sleep nat
  | Summary nat nat

fun is_send :: "event \<Rightarrow> bool" where
  "is_send (Send req) = True"
| "is_send (Call p k) = False"
| "is_send (Sleep ms) = False"
| "is_send (Summary a b) = False"

definition sends :: "event list \<Rightarrow> nat" where
  "sends tr = length (filter is_send tr)"

text \<open>\<open>process.env.NAME || 'default'\<close>: an unset or empty variable gives the default.\<close>

definition env_or :: "string option \<Rightarrow> string \<Rightarrow> string" where
  "env_or v d = (case v of None \<Rightarrow> d | Some s \<Rightarrow> if s = [] then d else s)"

definition BUCKET_NAME :: "world \<Rightarrow> string" where
  "BUCKET_NAME w = env_or (env w ''S3_BUCKET_NAME'') ''johnk-files-2026''"

section \<open>uploadFileToS3 (s3-upload-advanced.js)\<close>

record options =
  contentType :: jsval
  metadata :: jsval
  additionalParams :: "string \<rightharpoonup> jsval"

text \<open>The default \<open>options = {}\<close>; spreading an absent \<open>additionalParams\<close> adds nothing.\<close>

definition no_options :: options where
  "no_options = \<lparr>contentType = Undefined, metadata = Undefined, additionalParams = Map.empty\<rparr>"

datatype upload_result =
    Success (res_s3Key: string) (res_url: string) (res_etag: "string option") (res_duration: string)
  | Failure (res_error: string) (res_filePath: string)

fun success :: "upload_result \<Rightarrow> bool" where
  "success (Success k u e d) = True"
| "success (Failure m p) = False"

text \<open>Lines 44 to 46: a stream above 5 MiB, the whole file in a buffer otherwise.\<close>

definition fileContent :: "world \<Rightarrow> string \<Rightarrow> nat \<Rightarrow> js_error + jsval" where
  "fileContent w filePath fileSize =
     (if fileSize > 5 * 1024 * 1024 then Inr (ReadStream filePath)
      else (case readFileSync w filePath of Inl e \<Rightarrow> Inl e | Inr bytes \<Rightarrow> Inr (Buffer bytes)))"

text \<open>Lines 48 to 55: the object literal, fields in order, the spread last.\<close>

definition uploadParams :: "world \<Rightarrow> string \<Rightarrow> string \<Rightarrow> options \<Rightarrow> jsval \<Rightarrow> (string \<rightharpoonup> jsval)" where
  "uploadParams w filePath s3Key opts body =
     [''Bucket'' \<mapsto> Str (BUCKET_NAME w),
      ''Key'' \<mapsto> Str s3Key,
      ''Body'' \<mapsto> body,
      ''ContentType'' \<mapsto> js_or (contentType opts) (getContentType filePath),
      ''Metadata'' \<mapsto> js_or (metadata opts) (Object [])]
     ++ additionalParams opts"

definition s3Url :: "world \<Rightarrow> string \<Rightarrow> string" where
  "s3Url w s3Key =
     ''https://'' @ BUCKET_NAME w @ ''.s3.'' @ env_or (env w ''AWS_REGION'') ''eu-north-1''
       @ ''.amazonaws.com/'' @ s3Key"

text \<open>The \<open>try\<close> block: \<open>Inl\<close> is a throw inside it.\<close>

definition upload_try ::
  "world \<Rightarrow> string \<Rightarrow> string \<Rightarrow> options \<Rightarrow> event list \<Rightarrow> (js_error + upload_result) \<times> event list" where
  "upload_try w filePath s3Key opts tr =
     (if \<not> existsSync w filePath then (Inl (Error (''File not found: '' @ filePath)), tr)
      else
        (case statSync w filePath of
           Inl e \<Rightarrow> (Inl e, tr)
         | Inr fileSize \<Rightarrow>
             (case fileContent w filePath fileSize of
                Inl e \<Rightarrow> (Inl e, tr)
              | Inr body \<Rightarrow>
                  (let req = uploadParams w filePath s3Key opts body;
                       out = send w (sends tr) req;
                       tr' = tr @ [Send req]
                   in case reply out of
                        Inl e \<Rightarrow> (Inl e, tr')
                      | Inr resp \<Rightarrow>
                          (Inr (Success s3Key (s3Url w s3Key) (ETag resp)
                                  (toFixed2_seconds (elapsed out))), tr')))))"

text \<open>The function: the \<open>try\<close> block, and the \<open>catch\<close> that turns a throw into a result.\<close>

definition uploadFileToS3 ::
  "world \<Rightarrow> string \<Rightarrow> string \<Rightarrow> options \<Rightarrow> event list \<Rightarrow> (js_error + upload_result) \<times> event list" where
  "uploadFileToS3 w filePath s3Key opts tr =
     (case upload_try w filePath s3Key opts (tr @ [Call filePath s3Key]) of
        (Inl error, tr') \<Rightarrow> (Inr (Failure (message error) filePath), tr')
      | (Inr result, tr') \<Rightarrow> (Inr result, tr'))"

section \<open>uploadWithRetry\<close>

text \<open>
  \<open>lastError\<close> starts undefined, becomes the \<open>error\<close> string of a failed result, or
  the caught \<open>Error\<close> object. Inside the final message it is converted to a string.
\<close>

datatype last_error = LastUndefined | LastString string | LastCaught js_error

fun to_string :: "last_error \<Rightarrow> string" where
  "to_string LastUndefined = ''undefined''"
| "to_string (LastString s) = s"
| "to_string (LastCaught e) = (if message e = [] then ''Error'' else ''Error: '' @ message e)"

text \<open>The loop from \<open>attempt\<close> on, and the \<open>throw\<close> after it.\<close>

function retry_from ::
  "world \<Rightarrow> string \<Rightarrow> string \<Rightarrow> nat \<Rightarrow> nat \<Rightarrow> last_error \<Rightarrow> event list
     \<Rightarrow> (js_error + upload_result) \<times> event list" where
  "retry_from w filePath s3Key maxRetries attempt lastError tr =
     (if attempt \<le> maxRetries then
        (case uploadFileToS3 w filePath s3Key no_options tr of
           (Inr result, tr1) \<Rightarrow>
             if success result then (Inr result, tr1)
             else retry_from w filePath s3Key maxRetries (attempt + 1)
                    (LastString (res_error result)) tr1
         | (Inl error, tr1) \<Rightarrow>
             retry_from w filePath s3Key maxRetries (attempt + 1) (LastCaught error)
               (if attempt < maxRetries then tr1 @ [Sleep (1000 * 2 ^ attempt)] else tr1))
      else
        (Inl (Error (''Upload failed after '' @ show_nat maxRetries @ '' attempts: ''
                       @ to_string lastError)), tr))"
  by pat_completeness auto
termination
  by (relation "measure (\<lambda>(w, filePath, s3Key, maxRetries, attempt, lastError, tr).
                  Suc maxRetries - attempt)") auto

definition uploadWithRetry ::
  "world \<Rightarrow> string \<Rightarrow> string \<Rightarrow> nat \<Rightarrow> event list \<Rightarrow> (js_error + upload_result) \<times> event list" where
  "uploadWithRetry w filePath s3Key maxRetries tr =
     retry_from w filePath s3Key maxRetries 1 LastUndefined tr"

section \<open>uploadDirectory\<close>

text \<open>
  What the walk learns of a directory: \<open>fs.readdirSync\<close> throws or lists names, and
  \<open>fs.statSync\<close> on each name throws, or reports a regular file, a directory (with what
  reading that directory gives in turn), or something that is neither. A directory tree is
  finite, so the walk is a structural recursion over it.
\<close>

datatype dirent =
    StatThrows js_error
  | IsFile
  | IsDirectory "js_error + (string \<times> dirent) list"
  | IsOther

text \<open>
  \<open>Promise.all\<close>: the array of values, or the rejection of an element that rejects.
  Elements are listed in the order they were pushed.
\<close>

fun promise_all :: "(js_error + 'a) list \<Rightarrow> js_error + 'a list" where
  "promise_all [] = Inr []"
| "promise_all (Inl e # ps) = Inl e"
| "promise_all (Inr v # ps) = (case promise_all ps of Inl e \<Rightarrow> Inl e | Inr vs \<Rightarrow> Inr (v # vs))"

definition prefixed :: "string \<Rightarrow> string \<Rightarrow> string" where
  "prefixed s3Prefix file = (if s3Prefix \<noteq> [] then s3Prefix @ ''/'' @ file else file)"

text \<open>
  \<open>uploadDirectory\<close> gets what \<open>readdirSync(dirPath)\<close> answers; \<open>upload_entries\<close>
  is its \<open>for\<close> loop over the remaining names, with \<open>uploadPromises\<close> as built so far.
  An upload that is pushed has started: its events are in the trace from then on.
\<close>

function (sequential) uploadDirectory ::
    "world \<Rightarrow> js_error + (string \<times> dirent) list \<Rightarrow> string \<Rightarrow> string \<Rightarrow> event list
       \<Rightarrow> (js_error + upload_result list) \<times> event list"
  and upload_entries ::
    "world \<Rightarrow> (string \<times> dirent) list \<Rightarrow> string \<Rightarrow> string \<Rightarrow> (js_error + upload_result) list
       \<Rightarrow> event list \<Rightarrow> (js_error + (js_error + upload_result) list) \<times> event list"
where
  "uploadDirectory w (Inl e) dirPath s3Prefix tr = (Inl e, tr)"
| "uploadDirectory w (Inr files) dirPath s3Prefix tr =
     (case upload_entries w files dirPath s3Prefix [] tr of
        (Inl e, tr') \<Rightarrow> (Inl e, tr')
      | (Inr uploadPromises, tr') \<Rightarrow> (promise_all uploadPromises, tr'))"
| "upload_entries w [] dirPath s3Prefix uploadPromises tr = (Inr uploadPromises, tr)"
| "upload_entries w ((file, StatThrows e) # rest) dirPath s3Prefix uploadPromises tr = (Inl e, tr)"
| "upload_entries w ((file, IsFile) # rest) dirPath s3Prefix uploadPromises tr =
     (case uploadFileToS3 w (path_join w dirPath file) (prefixed s3Prefix file) no_options tr of
        (p, tr') \<Rightarrow> upload_entries w rest dirPath s3Prefix (uploadPromises @ [p]) tr')"
| "upload_entries w ((file, IsDirectory sub) # rest) dirPath s3Prefix uploadPromises tr =
     (case uploadDirectory w sub (path_join w dirPath file) (prefixed s3Prefix file) tr of
        (Inl e, tr') \<Rightarrow> (Inl e, tr')
      | (Inr subResults, tr') \<Rightarrow>
          upload_entries w rest dirPath s3Prefix (uploadPromises @ map Inr subResults) tr')"
| "upload_entries w ((file, IsOther) # rest) dirPath s3Prefix uploadPromises tr =
     upload_entries w rest dirPath s3Prefix uploadPromises tr"
  by pat_completeness auto
termination
  by (relation "measure (\<lambda>x. case x of
          Inl (w, d, dirPath, s3Prefix, tr) \<Rightarrow>
            (case d of Inl e \<Rightarrow> 0 | Inr files \<Rightarrow> Suc (size_list (size_prod (\<lambda>n. 0) size) files))
        | Inr (w, files, dirPath, s3Prefix, uploadPromises, tr) \<Rightarrow>
            size_list (size_prod (\<lambda>n. 0) size) files)")
     (auto split: sum.splits)

section \<open>The basic script: uploadFileToS3 and uploadMultipleFiles\<close>










section \<open>Notions used in the statements\<close>

text \<open>The invariant of the scan of \<open>path.extname\<close> before position \<open>n\<close> is read.\<close>

definition ext_inv :: "string \<Rightarrow> nat \<Rightarrow> ext_scan \<Rightarrow> bool" where
  "ext_inv path n s \<longleftrightarrow>
     n \<le> length path \<and> (endPos s = -1 \<or> int n < endPos s) \<and>
     (startDot s \<noteq> -1 \<longrightarrow> 0 \<le> startDot s \<and> nat (startDot s) < length path \<and>
        path ! nat (startDot s) = CHR ''.'' \<and> startDot s < endPos s)"

text \<open>
  A small world for the examples: five short files and one of six million bytes, no
  environment variables, and a client that refuses the key \<open>private/secret.txt\<close> and
  accepts every other request after one and a half seconds.
\<close>

definition demo_send :: "nat \<Rightarrow> (string \<rightharpoonup> jsval) \<Rightarrow> send_result" where
  "demo_send k req =
     (if req ''Key'' = Some (Str ''private/secret.txt'')
      then \<lparr>elapsed = 120, reply = Inl (Error ''Access Denied'')\<rparr>
      else \<lparr>elapsed = 1500, reply = Inr \<lparr>ETag = Some ''abc123''\<rparr>\<rparr>)"

definition demo_small_files :: "string list" where
  "demo_small_files = [''hello.txt'', ''secret.txt'', ''root/a.txt'', ''root/sub/b.txt'']"

definition demo_world :: world where
  "demo_world =
     \<lparr>env = (\<lambda>name. None),
      existsSync = (\<lambda>p. p = ''movie.mp4'' \<or> p \<in> set demo_small_files),
      statSync = (\<lambda>p. if p = ''movie.mp4'' then Inr 6000000
                       else if p \<in> set demo_small_files then Inr 5
                       else Inl (Error (''ENOENT: no such file or directory, stat '' @ p))),
      readFileSync = (\<lambda>p. if p \<in> set demo_small_files then Inr ''hello''
                       else Inl (Error (''ENOENT: no such file or directory, open '' @ p))),
      path_join = (\<lambda>d f. d @ ''/'' @ f),
      send = demo_send\<rparr>"

definition demo_options :: options where
  "demo_options =
     \<lparr>contentType = Str ''text/plain'', metadata = Undefined,
      additionalParams = [''Key'' \<mapsto> Str ''elsewhere.txt'', ''ACL'' \<mapsto> Str ''public-read'']\<rparr>"

text \<open>
  The directory \<open>root\<close> of the example, holding \<open>a.txt\<close> and \<open>sub/b.txt\<close>, and
  three files for a batch: one that uploads, one that is missing, one that is refused.
\<close>

definition demo_tree :: "(string \<times> dirent) list" where
  "demo_tree = [(''a.txt'', IsFile), (''sub'', IsDirectory (Inr [(''b.txt'', IsFile)]))]"


text \<open>The waits and the upload calls recorded in a trace, in order.\<close>

fun sleeps :: "event list \<Rightarrow> nat list" where
  "sleeps [] = []"
| "sleeps (Sleep ms # tr) = ms # sleeps tr"
| "sleeps (Call p k # tr) = sleeps tr"
| "sleeps (Send req # tr) = sleeps tr"
| "sleeps (Summary a b # tr) = sleeps tr"

fun calls :: "event list \<Rightarrow> (string \<times> string) list" where
  "calls [] = []"
| "calls (Call p k # tr) = (p, k) # calls tr"
| "calls (Sleep ms # tr) = calls tr"
| "calls (Send req # tr) = calls tr"
| "calls (Summary a b # tr) = calls tr"

text \<open>
  The trace after \<open>n\<close> uploads of the same file one after the other, and what the next
  upload returns: the attempts of the retry loop, counted from zero.
\<close>

fun after_attempts :: "world \<Rightarrow> string \<Rightarrow> string \<Rightarrow> event list \<Rightarrow> nat \<Rightarrow> event list" where
  "after_attempts w filePath s3Key tr 0 = tr"
| "after_attempts w filePath s3Key tr (Suc n) =
     snd (uploadFileToS3 w filePath s3Key no_options (after_attempts w filePath s3Key tr n))"

definition attempt_result ::
  "world \<Rightarrow> string \<Rightarrow> string \<Rightarrow> event list \<Rightarrow> nat \<Rightarrow> js_error + upload_result" where
  "attempt_result w filePath s3Key tr n =
     fst (uploadFileToS3 w filePath s3Key no_options (after_attempts w filePath s3Key tr n))"

text \<open>
  The regular files below a directory, each as the list of names that leads to it, in
  the order of the listing; a walk in which no \<open>stat\<close> and no \<open>readdir\<close> throws; and
  a listing without an empty name, as every directory listing is.
\<close>

fun rel_files :: "(string \<times> dirent) list \<Rightarrow> string list list" where
  "rel_files [] = []"
| "rel_files ((file, IsFile) # rest) = [file] # rel_files rest"
| "rel_files ((file, IsDirectory (Inr sub)) # rest) = map ((#) file) (rel_files sub) @ rel_files rest"
| "rel_files ((file, IsDirectory (Inl e)) # rest) = rel_files rest"
| "rel_files ((file, StatThrows e) # rest) = rel_files rest"
| "rel_files ((file, IsOther) # rest) = rel_files rest"

fun walk_ok :: "(string \<times> dirent) list \<Rightarrow> bool" where
  "walk_ok [] = True"
| "walk_ok ((file, IsFile) # rest) = walk_ok rest"
| "walk_ok ((file, IsDirectory (Inr sub)) # rest) = (walk_ok sub \<and> walk_ok rest)"
| "walk_ok ((file, IsDirectory (Inl e)) # rest) = False"
| "walk_ok ((file, StatThrows e) # rest) = False"
| "walk_ok ((file, IsOther) # rest) = walk_ok rest"

fun names_nonempty :: "(string \<times> dirent) list \<Rightarrow> bool" where
  "names_nonempty [] = True"
| "names_nonempty ((file, IsDirectory (Inr sub)) # rest) =
     (file \<noteq> [] \<and> names_nonempty sub \<and> names_nonempty rest)"
| "names_nonempty ((file, IsDirectory (Inl e)) # rest) = (file \<noteq> [] \<and> names_nonempty rest)"
| "names_nonempty ((file, IsFile) # rest) = (file \<noteq> [] \<and> names_nonempty rest)"
| "names_nonempty ((file, StatThrows e) # rest) = (file \<noteq> [] \<and> names_nonempty rest)"
| "names_nonempty ((file, IsOther) # rest) = (file \<noteq> [] \<and> names_nonempty rest)"

text \<open>
  A relative path written with slashes, the key it gets under a prefix, the local path
  the walk builds for it with \<open>path.join\<close>, and the two together: the upload task.
\<close>

fun slash_join :: "string list \<Rightarrow> string" where
  "slash_join [] = []"
| "slash_join [name] = name"
| "slash_join (name # names) = name @ ''/'' @ slash_join names"

definition key_of :: "string \<Rightarrow> string list \<Rightarrow> string" where
  "key_of P rel = (if P = [] then slash_join rel else P @ ''/'' @ slash_join rel)"

definition local_path :: "world \<Rightarrow> string \<Rightarrow> string list \<Rightarrow> string" where
  "local_path w dirPath rel = foldl (path_join w) dirPath rel"

definition task_of :: "world \<Rightarrow> string \<Rightarrow> string \<Rightarrow> string list \<Rightarrow> string \<times> string" where
  "task_of w dirPath P rel = (local_path w dirPath rel, key_of P rel)"

text \<open>
  The invariant of the walk. From the trace \<open>tr\<close> to the trace \<open>tr'\<close> the uploads of
  the first \<open>n\<close> regular files were called, with their tasks, and of all of them when the
  walk ran to its end.
\<close>

definition walked ::
  "world \<Rightarrow> (string \<times> dirent) list \<Rightarrow> string \<Rightarrow> string \<Rightarrow> event list \<Rightarrow> event list \<Rightarrow> bool \<Rightarrow> nat
     \<Rightarrow> bool" where
  "walked w entries dirPath P tr tr' completed n \<longleftrightarrow>
     n \<le> length (rel_files entries) \<and>
     length (calls tr') = length (calls tr) + n \<and>
     (names_nonempty entries \<longrightarrow>
        calls tr' = calls tr @ map (task_of w dirPath P) (take n (rel_files entries))) \<and>
     (completed \<longrightarrow> n = length (rel_files entries))"

definition entries_walked ::
  "world \<Rightarrow> (string \<times> dirent) list \<Rightarrow> string \<Rightarrow> string \<Rightarrow> (js_error + upload_result) list
     \<Rightarrow> event list \<Rightarrow> bool" where
  "entries_walked w entries dirPath P uploadPromises tr \<longleftrightarrow>
     (\<exists>n. walked w entries dirPath P tr
             (snd (upload_entries w entries dirPath P uploadPromises tr))
             (\<not> isl (fst (upload_entries w entries dirPath P uploadPromises tr))) n) \<and>
     (walk_ok entries \<longrightarrow>
        (\<exists>results. fst (upload_entries w entries dirPath P uploadPromises tr)
                     = Inr (uploadPromises @ map Inr results) \<and>
                   length results = length (rel_files entries)))"

definition directory_walked ::
  "world \<Rightarrow> (string \<times> dirent) list \<Rightarrow> string \<Rightarrow> string \<Rightarrow> event list \<Rightarrow> bool" where
  "directory_walked w entries dirPath P tr \<longleftrightarrow>
     (\<exists>n. walked w entries dirPath P tr
             (snd (uploadDirectory w (Inr entries) dirPath P tr))
             (\<not> isl (fst (uploadDirectory w (Inr entries) dirPath P tr))) n) \<and>
     (walk_ok entries \<longrightarrow>
        (\<exists>results. fst (uploadDirectory w (Inr entries) dirPath P tr) = Inr results \<and>
                   length results = length (rel_files entries)))"




section \<open>Properties\<close>

declare show_nat.simps [simp del]

declare retry_from.simps [simp del]

subsection \<open>Content types\<close>

lemma ext_inv_step:
  assumes "ext_inv path (Suc i) s"
  shows "ext_inv path i (ext_see (path ! i) i (ext_mark_end i s))"
  using assms by (auto simp: ext_inv_def ext_see_def ext_mark_end_def)

lemma ext_inv_skip: "ext_inv path (Suc i) s \<Longrightarrow> ext_inv path i s"
  by (auto simp: ext_inv_def)

lemma ext_inv_break: "ext_inv path (Suc i) s \<Longrightarrow> ext_inv path 0 (s\<lparr>startPart := int i + 1\<rparr>)"
  by (auto simp: ext_inv_def)

lemma ext_loop_inv: "ext_inv path n s \<Longrightarrow> ext_inv path 0 (ext_loop path n s)"
proof (induction n arbitrary: s)
  case 0
  then show ?case by simp
next
  case (Suc i)
  show ?case
  proof (cases "path ! i = CHR ''/''")
    case True
    then show ?thesis
      using Suc.prems Suc.IH [OF ext_inv_skip [OF Suc.prems]] ext_inv_break [OF Suc.prems]
      by simp
  next
    case False
    then show ?thesis
      using Suc.IH [OF ext_inv_step [OF Suc.prems]] by simp
  qed
qed

lemma ext_inv_init: "ext_inv path (length path) ext_init"
  by (simp add: ext_inv_def ext_init_def)

text \<open>An extension is empty or begins with its dot.\<close>

lemma extname_dot: "extname path = [] \<or> hd (extname path) = CHR ''.''"
proof -
  let ?s = "ext_loop path (length path) ext_init"
  have inv: "ext_inv path 0 ?s" by (rule ext_loop_inv [OF ext_inv_init])
  show ?thesis
  proof (cases "startDot ?s = -1")
    case True
    then show ?thesis by (simp add: extname_def)
  next
    case False
    with inv have a: "0 \<le> startDot ?s" "nat (startDot ?s) < length path"
      "path ! nat (startDot ?s) = CHR ''.''" "startDot ?s < endPos ?s"
      by (simp_all add: ext_inv_def)
    have "hd (slice path (startDot ?s) (endPos ?s)) = CHR ''.''"
      using a by (simp add: slice_def hd_drop_conv_nth)
    then show ?thesis by (simp add: extname_def Let_def)
  qed
qed

lemma lower_char_dot: "lower_char c = CHR ''.'' \<longleftrightarrow> c = CHR ''.''"
  by (auto simp: lower_char_def split: option.splits if_splits)

lemma toLowerCase_dot:
  "s = [] \<or> hd s = CHR ''.'' \<Longrightarrow> toLowerCase s = [] \<or> hd (toLowerCase s) = CHR ''.''"
  by (cases s) (auto simp: toLowerCase_def lower_char_dot)

lemma not_a_prototype_name:
  "k = [] \<or> hd k = CHR ''.'' \<Longrightarrow> k \<notin> set object_prototype_names"
  by (auto simp: object_prototype_names_def)

lemma contentTypes_values: "map_of contentTypes k = Some v \<Longrightarrow> v \<noteq> []"
  by (auto simp: contentTypes_def split: if_splits)

lemma extname_photo: "extname ''a/b/photo.JPG'' = ''.JPG''"
  by (simp add: extname_def ext_init_def ext_see_def ext_mark_end_def slice_def)

lemma extname_README: "extname ''README'' = []"
  by (simp add: extname_def ext_init_def ext_see_def ext_mark_end_def slice_def)

text \<open>
  Claim C7. For every file path, \<open>getContentType\<close> is decided by the lower-cased
  extension alone: when the table has it, the result is exactly the MIME string mapped
  to it; when the table has not (an unknown extension, or none), the result is
  \<open>application/octet-stream\<close>. In both cases it is a string: no inherited member of the
  table object is ever returned, and nothing is thrown.
\<close>

theorem getContentType_table:
  "(map_of contentTypes (toLowerCase (extname filePath)) = Some mime
      \<longrightarrow> getContentType filePath = Str mime) \<and>
   (map_of contentTypes (toLowerCase (extname filePath)) = None
      \<longrightarrow> getContentType filePath = Str ''application/octet-stream'')"
proof -
  have k: "toLowerCase (extname filePath) \<notin> set object_prototype_names"
    by (rule not_a_prototype_name [OF toLowerCase_dot [OF extname_dot]])
  show ?thesis
    using k contentTypes_values [of "toLowerCase (extname filePath)" mime]
    by (auto simp: getContentType_def obj_get_def js_or_def)
qed

theorem getContentType_table_witness:
  "map_of contentTypes (toLowerCase (extname ''a/b/photo.JPG'')) = Some ''image/jpeg'' \<and>
   getContentType ''a/b/photo.JPG'' = Str ''image/jpeg'' \<and>
   map_of contentTypes (toLowerCase (extname ''README'')) = None \<and>
   getContentType ''README'' = Str ''application/octet-stream''"
proof -
  have a: "map_of contentTypes (toLowerCase (extname ''a/b/photo.JPG'')) = Some ''image/jpeg''"
    by (simp add: extname_photo toLowerCase_def lower_char_def contentTypes_def)
  have b: "map_of contentTypes (toLowerCase (extname ''README'')) = None"
    by (simp add: extname_README toLowerCase_def contentTypes_def)
  show ?thesis
    using a b getContentType_table [of "''a/b/photo.JPG''" "''image/jpeg''"]
      getContentType_table [of "''README''" "[]"]
    by simp
qed

subsection \<open>The single upload\<close>

lemma sends_append [simp]: "sends (tr @ tr') = sends tr + sends tr'"
  by (simp add: sends_def)

lemma sends_Call [simp]: "sends [Call p k] = 0"
  by (simp add: sends_def)

lemma no_options_simps [simp]:
  "additionalParams no_options = Map.empty" "contentType no_options = Undefined"
  "metadata no_options = Undefined"
  by (simp_all add: no_options_def)

text \<open>The five ways through \<open>uploadFileToS3\<close>.\<close>

lemma upload_missing:
  "\<not> existsSync w filePath \<Longrightarrow>
   uploadFileToS3 w filePath s3Key opts tr =
     (Inr (Failure (''File not found: '' @ filePath) filePath), tr @ [Call filePath s3Key])"
  by (simp add: uploadFileToS3_def upload_try_def)

lemma upload_stat_throws:
  "existsSync w filePath \<Longrightarrow> statSync w filePath = Inl e \<Longrightarrow>
   uploadFileToS3 w filePath s3Key opts tr =
     (Inr (Failure (message e) filePath), tr @ [Call filePath s3Key])"
  by (simp add: uploadFileToS3_def upload_try_def)

lemma upload_read_throws:
  "existsSync w filePath \<Longrightarrow> statSync w filePath = Inr fileSize \<Longrightarrow>
   fileContent w filePath fileSize = Inl e \<Longrightarrow>
   uploadFileToS3 w filePath s3Key opts tr =
     (Inr (Failure (message e) filePath), tr @ [Call filePath s3Key])"
  by (simp add: uploadFileToS3_def upload_try_def)

lemma upload_send_throws:
  "existsSync w filePath \<Longrightarrow> statSync w filePath = Inr fileSize \<Longrightarrow>
   fileContent w filePath fileSize = Inr body \<Longrightarrow>
   reply (send w (sends tr) (uploadParams w filePath s3Key opts body)) = Inl e \<Longrightarrow>
   uploadFileToS3 w filePath s3Key opts tr =
     (Inr (Failure (message e) filePath),
      tr @ [Call filePath s3Key, Send (uploadParams w filePath s3Key opts body)])"
  by (simp add: uploadFileToS3_def upload_try_def Let_def)

lemma upload_succeeds:
  "existsSync w filePath \<Longrightarrow> statSync w filePath = Inr fileSize \<Longrightarrow>
   fileContent w filePath fileSize = Inr body \<Longrightarrow>
   reply (send w (sends tr) (uploadParams w filePath s3Key opts body)) = Inr resp \<Longrightarrow>
   uploadFileToS3 w filePath s3Key opts tr =
     (Inr (Success s3Key (s3Url w s3Key) (ETag resp)
             (toFixed2_seconds (elapsed (send w (sends tr) (uploadParams w filePath s3Key opts body))))),
      tr @ [Call filePath s3Key, Send (uploadParams w filePath s3Key opts body)])"
  by (simp add: uploadFileToS3_def upload_try_def Let_def)

lemma upload_returns:
  "\<exists>result tr'. uploadFileToS3 w filePath s3Key opts tr = (Inr result, tr')"
  by (auto simp: uploadFileToS3_def split: prod.splits sum.splits)

text \<open>The example world, field by field.\<close>

lemma demo_simps:
  "existsSync demo_world p = (p = ''movie.mp4'' \<or> p \<in> set demo_small_files)"
  "env demo_world = (\<lambda>name. None)"
  "send demo_world = demo_send"
  "path_join demo_world d f = d @ ''/'' @ f"
  by (simp_all add: demo_world_def)

lemma demo_stat:
  "statSync demo_world ''hello.txt'' = Inr 5"
  "statSync demo_world ''secret.txt'' = Inr 5"
  "statSync demo_world ''movie.mp4'' = Inr 6000000"
  "statSync demo_world ''root/a.txt'' = Inr 5"
  "statSync demo_world ''root/sub/b.txt'' = Inr 5"
  by (simp_all add: demo_world_def demo_small_files_def)

lemma demo_read:
  "readFileSync demo_world ''hello.txt'' = Inr ''hello''"
  "readFileSync demo_world ''secret.txt'' = Inr ''hello''"
  "readFileSync demo_world ''root/a.txt'' = Inr ''hello''"
  "readFileSync demo_world ''root/sub/b.txt'' = Inr ''hello''"
  by (simp_all add: demo_world_def demo_small_files_def)

lemma demo_content:
  "fileContent demo_world ''hello.txt'' 5 = Inr (Buffer ''hello'')"
  "fileContent demo_world ''secret.txt'' 5 = Inr (Buffer ''hello'')"
  "fileContent demo_world ''movie.mp4'' 6000000 = Inr (ReadStream ''movie.mp4'')"
  "fileContent demo_world ''root/a.txt'' 5 = Inr (Buffer ''hello'')"
  "fileContent demo_world ''root/sub/b.txt'' 5 = Inr (Buffer ''hello'')"
  by (simp_all add: fileContent_def demo_read)

lemma uploadParams_Key:
  "additionalParams opts ''Key'' = None \<Longrightarrow>
   uploadParams w filePath s3Key opts body ''Key'' = Some (Str s3Key)"
  by (simp add: uploadParams_def map_add_def)

lemma demo_denied:
  "reply (send demo_world k
            (uploadParams demo_world ''secret.txt'' ''private/secret.txt'' no_options b))
     = Inl (Error ''Access Denied'')"
  by (simp add: demo_simps demo_send_def uploadParams_Key)

text \<open>
  Claim C3. For every path, key and options, \<open>uploadFileToS3\<close> of the advanced script
  returns a result and throws nothing. When the local file does not exist the result is a
  failure with the message \<open>File not found: \<close> and the path; when the client rejects the
  request with an error, the result is a failure with that error's message and the path.
\<close>

theorem upload_never_throws:
  "(\<exists>result. fst (uploadFileToS3 w filePath s3Key opts tr) = Inr result) \<and>
   (\<not> existsSync w filePath \<longrightarrow>
      fst (uploadFileToS3 w filePath s3Key opts tr)
        = Inr (Failure (''File not found: '' @ filePath) filePath)) \<and>
   (existsSync w filePath \<and> statSync w filePath = Inr fileSize \<and>
    fileContent w filePath fileSize = Inr body \<and>
    reply (send w (sends tr) (uploadParams w filePath s3Key opts body)) = Inl e \<longrightarrow>
      fst (uploadFileToS3 w filePath s3Key opts tr) = Inr (Failure (message e) filePath))"
proof (intro conjI impI)
  show "\<exists>result. fst (uploadFileToS3 w filePath s3Key opts tr) = Inr result"
    using upload_returns [of w filePath s3Key opts tr] by auto
next
  assume "\<not> existsSync w filePath"
  then show "fst (uploadFileToS3 w filePath s3Key opts tr)
               = Inr (Failure (''File not found: '' @ filePath) filePath)"
    by (simp add: upload_missing)
next
  assume "existsSync w filePath \<and> statSync w filePath = Inr fileSize \<and>
    fileContent w filePath fileSize = Inr body \<and>
    reply (send w (sends tr) (uploadParams w filePath s3Key opts body)) = Inl e"
  then show "fst (uploadFileToS3 w filePath s3Key opts tr) = Inr (Failure (message e) filePath)"
    by (simp add: upload_send_throws)
qed

theorem upload_never_throws_witness:
  "fst (uploadFileToS3 demo_world ''missing.txt'' ''k'' no_options [])
     = Inr (Failure ''File not found: missing.txt'' ''missing.txt'') \<and>
   fst (uploadFileToS3 demo_world ''secret.txt'' ''private/secret.txt'' no_options [])
     = Inr (Failure ''Access Denied'' ''secret.txt'')"
proof -
  have a: "\<not> existsSync demo_world ''missing.txt''"
    by (simp add: demo_simps demo_small_files_def)
  have b: "existsSync demo_world ''secret.txt''"
    by (simp add: demo_simps demo_small_files_def)
  show ?thesis
    using a b demo_stat(2) demo_content(2) demo_denied [of "sends []" "Buffer ''hello''"]
      upload_never_throws [of demo_world "''missing.txt''" "''k''" no_options "[]"]
      upload_never_throws [of demo_world "''secret.txt''" "''private/secret.txt''" no_options "[]"
         5 "Buffer ''hello''" "Error ''Access Denied''"]
    by simp
qed

text \<open>The examples of the elapsed time and of the attempt count, printed.\<close>

lemma show_nat_1500: "show_nat 1500 = ''1500''"
  by (simp add: show_nat.simps digit_char_def)

lemma show_nat_3: "show_nat 3 = ''3''"
  by (simp add: show_nat.simps digit_char_def)

lemma double_exponent_1500: "double_exponent 1500 = 52"
  unfolding double_exponent_def by (simp add: upt_rec)

lemma hundredths_1500: "hundredths 1500 = 150"
  by (simp add: hundredths_def double_mantissa_def double_exponent_1500 Let_def)

lemma toFixed2_1500: "toFixed2_seconds 1500 = ''1.50''"
  by (simp add: toFixed2_seconds_def fixed2_def hundredths_1500 show_nat.simps digit_char_def)

lemma demo_accepts:
  "send demo_world k (uploadParams demo_world ''hello.txt'' ''uploads/hello.txt'' no_options b)
     = \<lparr>elapsed = 1500, reply = Inr \<lparr>ETag = Some ''abc123''\<rparr>\<rparr>"
  by (simp add: demo_simps demo_send_def uploadParams_Key)

lemma demo_hello_upload:
  "uploadFileToS3 demo_world ''hello.txt'' ''uploads/hello.txt'' no_options [] =
     (Inr (Success ''uploads/hello.txt''
             ''https://johnk-files-2026.s3.eu-north-1.amazonaws.com/uploads/hello.txt''
             (Some ''abc123'') ''1.50''),
      [Call ''hello.txt'' ''uploads/hello.txt'',
       Send (uploadParams demo_world ''hello.txt'' ''uploads/hello.txt'' no_options (Buffer ''hello''))])"
proof -
  have b: "existsSync demo_world ''hello.txt''"
    by (simp add: demo_simps demo_small_files_def)
  have r: "reply (send demo_world (sends [])
             (uploadParams demo_world ''hello.txt'' ''uploads/hello.txt'' no_options (Buffer ''hello'')))
           = Inr \<lparr>ETag = Some ''abc123''\<rparr>"
    by (simp add: demo_accepts)
  show ?thesis
    using upload_succeeds [OF b demo_stat(1) demo_content(1) r]
    by (simp add: demo_accepts toFixed2_1500 s3Url_def BUCKET_NAME_def env_or_def demo_simps(2))
qed

lemma demo_secret_upload:
  "uploadFileToS3 demo_world ''secret.txt'' ''private/secret.txt'' no_options tr =
     (Inr (Failure ''Access Denied'' ''secret.txt''),
      tr @ [Call ''secret.txt'' ''private/secret.txt'',
            Send (uploadParams demo_world ''secret.txt'' ''private/secret.txt'' no_options (Buffer ''hello''))])"
proof -
  have b: "existsSync demo_world ''secret.txt''"
    by (simp add: demo_simps demo_small_files_def)
  show ?thesis
    using upload_send_throws [OF b demo_stat(2) demo_content(2) demo_denied] by simp
qed

text \<open>
  Claim C6. For every file size, the body chosen at lines 44 to 46 is a read stream on the
  file exactly when the size is above \<open>5 * 1024 * 1024\<close> bytes; at or below it, the body
  is what \<open>readFileSync\<close> gives: the whole file in a buffer, or its error. When the
  options do not replace \<open>Body\<close>, that body is the \<open>Body\<close> of the request handed to
  the client.
\<close>

theorem transfer_strategy:
  "(fileContent w filePath fileSize = Inr (ReadStream filePath) \<longleftrightarrow> 5 * 1024 * 1024 < fileSize) \<and>
   (fileSize \<le> 5 * 1024 * 1024 \<longrightarrow>
      fileContent w filePath fileSize
        = (case readFileSync w filePath of Inl e \<Rightarrow> Inl e | Inr bytes \<Rightarrow> Inr (Buffer bytes))) \<and>
   (existsSync w filePath \<and> statSync w filePath = Inr fileSize \<and>
    fileContent w filePath fileSize = Inr body \<and> additionalParams opts ''Body'' = None \<longrightarrow>
      (\<exists>req. snd (uploadFileToS3 w filePath s3Key opts tr) = tr @ [Call filePath s3Key, Send req] \<and>
             req ''Body'' = Some body \<and>
             (body = ReadStream filePath \<longleftrightarrow> 5 * 1024 * 1024 < fileSize)))"
proof (intro conjI impI)
  show a: "fileContent w filePath fileSize = Inr (ReadStream filePath) \<longleftrightarrow> 5 * 1024 * 1024 < fileSize"
    by (auto simp: fileContent_def split: sum.splits)
  show "fileSize \<le> 5 * 1024 * 1024 \<Longrightarrow>
      fileContent w filePath fileSize
        = (case readFileSync w filePath of Inl e \<Rightarrow> Inl e | Inr bytes \<Rightarrow> Inr (Buffer bytes))"
    by (simp add: fileContent_def)
  assume h: "existsSync w filePath \<and> statSync w filePath = Inr fileSize \<and>
    fileContent w filePath fileSize = Inr body \<and> additionalParams opts ''Body'' = None"
  let ?req = "uploadParams w filePath s3Key opts body"
  have t: "snd (uploadFileToS3 w filePath s3Key opts tr) = tr @ [Call filePath s3Key, Send ?req]"
  proof (cases "reply (send w (sends tr) ?req)")
    case (Inl e)
    with h show ?thesis by (simp add: upload_send_throws)
  next
    case (Inr resp)
    with h show ?thesis by (simp add: upload_succeeds)
  qed
  have b: "?req ''Body'' = Some body"
    using h by (simp add: uploadParams_def map_add_def)
  have c: "body = ReadStream filePath \<longleftrightarrow> 5 * 1024 * 1024 < fileSize"
    using a h by simp
  show "\<exists>req. snd (uploadFileToS3 w filePath s3Key opts tr) = tr @ [Call filePath s3Key, Send req] \<and>
             req ''Body'' = Some body \<and>
             (body = ReadStream filePath \<longleftrightarrow> 5 * 1024 * 1024 < fileSize)"
    using t b c by blast
qed

theorem transfer_strategy_witness:
  "fileContent demo_world ''movie.mp4'' 6000000 = Inr (ReadStream ''movie.mp4'') \<and>
   fileContent demo_world ''hello.txt'' 5 \<noteq> Inr (ReadStream ''hello.txt'') \<and>
   (\<exists>req. snd (uploadFileToS3 demo_world ''movie.mp4'' ''video/movie.mp4'' no_options [])
             = [Call ''movie.mp4'' ''video/movie.mp4'', Send req] \<and>
          req ''Body'' = Some (ReadStream ''movie.mp4'')) \<and>
   (\<exists>req. snd (uploadFileToS3 demo_world ''hello.txt'' ''uploads/hello.txt'' no_options [])
             = [Call ''hello.txt'' ''uploads/hello.txt'', Send req] \<and>
          req ''Body'' = Some (Buffer ''hello''))"
proof -
  have a: "existsSync demo_world ''movie.mp4''" "existsSync demo_world ''hello.txt''"
    by (simp_all add: demo_simps demo_small_files_def)
  show ?thesis
    using a demo_stat(1,3) demo_content(1,3)
      transfer_strategy [of demo_world "''movie.mp4''" 6000000 "ReadStream ''movie.mp4''" no_options
        "''video/movie.mp4''" "[]"]
      transfer_strategy [of demo_world "''hello.txt''" 5 "Buffer ''hello''" no_options
        "''uploads/hello.txt''" "[]"]
    by simp
qed

text \<open>
  Claim C10. For every upload that reaches the client and every field \<open>F\<close> that
  \<open>options.additionalParams\<close> defines, the request handed to the client has \<open>F\<close>
  equal to \<open>options.additionalParams[F]\<close>, whichever field it is: \<open>Bucket\<close>,
  \<open>Key\<close>, \<open>Body\<close>, \<open>ContentType\<close> and \<open>Metadata\<close> included.
\<close>

theorem additionalParams_override:
  assumes "additionalParams opts F = Some v"
    and "existsSync w filePath" and "statSync w filePath = Inr fileSize"
    and "fileContent w filePath fileSize = Inr body"
  shows "\<exists>req. snd (uploadFileToS3 w filePath s3Key opts tr) = tr @ [Call filePath s3Key, Send req] \<and>
               req F = Some v"
proof -
  let ?req = "uploadParams w filePath s3Key opts body"
  have t: "snd (uploadFileToS3 w filePath s3Key opts tr) = tr @ [Call filePath s3Key, Send ?req]"
  proof (cases "reply (send w (sends tr) ?req)")
    case (Inl e)
    with assms show ?thesis by (simp add: upload_send_throws)
  next
    case (Inr resp)
    with assms show ?thesis by (simp add: upload_succeeds)
  qed
  have "?req F = Some v"
    using assms(1) by (simp add: uploadParams_def map_add_def)
  with t show ?thesis by blast
qed

theorem additionalParams_override_witness:
  "additionalParams demo_options ''Key'' = Some (Str ''elsewhere.txt'') \<and>
   (\<exists>req. snd (uploadFileToS3 demo_world ''hello.txt'' ''uploads/hello.txt'' demo_options [])
            = [Call ''hello.txt'' ''uploads/hello.txt'', Send req] \<and>
          req ''Key'' = Some (Str ''elsewhere.txt''))"
proof -
  have a: "additionalParams demo_options ''Key'' = Some (Str ''elsewhere.txt'')"
    by (simp add: demo_options_def)
  have b: "existsSync demo_world ''hello.txt''"
    by (simp add: demo_simps demo_small_files_def)
  show ?thesis
    using a additionalParams_override [OF a b demo_stat(1) demo_content(1),
      of "''uploads/hello.txt''" "[]"]
    by simp
qed

text \<open>
  Claim C8, as the code has it. Every successful upload went through \<open>stat\<close>, the
  choice of the body and an accepted request, and its result holds the key it was called
  with, the URL \<open>https://{bucket}.s3.{region}.amazonaws.com/{key}\<close> for the configured
  bucket and region, the \<open>ETag\<close> of the client's response, and as \<open>duration\<close> the
  elapsed time in seconds, printed with two decimals.
\<close>

theorem success_result:
  assumes "fst (uploadFileToS3 w filePath s3Key opts tr) = Inr result" and "success result"
  shows "\<exists>fileSize body resp.
           statSync w filePath = Inr fileSize \<and> fileContent w filePath fileSize = Inr body \<and>
           reply (send w (sends tr) (uploadParams w filePath s3Key opts body)) = Inr resp \<and>
           result = Success s3Key
             (''https://'' @ BUCKET_NAME w @ ''.s3.'' @ env_or (env w ''AWS_REGION'') ''eu-north-1''
                @ ''.amazonaws.com/'' @ s3Key)
             (ETag resp)
             (toFixed2_seconds (elapsed (send w (sends tr) (uploadParams w filePath s3Key opts body))))"
  using assms
  by (auto simp: uploadFileToS3_def upload_try_def Let_def s3Url_def
           split: if_splits sum.splits prod.splits)

theorem success_result_witness:
  "success (Success ''uploads/hello.txt''
             ''https://johnk-files-2026.s3.eu-north-1.amazonaws.com/uploads/hello.txt''
             (Some ''abc123'') ''1.50'') \<and>
   (\<exists>fileSize body resp.
           statSync demo_world ''hello.txt'' = Inr fileSize \<and>
           fileContent demo_world ''hello.txt'' fileSize = Inr body \<and>
           reply (send demo_world (sends []) (uploadParams demo_world ''hello.txt'' ''uploads/hello.txt'' no_options body)) = Inr resp \<and>
           ETag resp = Some ''abc123'')"
proof -
  have a: "fst (uploadFileToS3 demo_world ''hello.txt'' ''uploads/hello.txt'' no_options [])
            = Inr (Success ''uploads/hello.txt''
             ''https://johnk-files-2026.s3.eu-north-1.amazonaws.com/uploads/hello.txt''
             (Some ''abc123'') ''1.50'')"
    by (simp add: demo_hello_upload)
  show ?thesis
    using success_result [OF a] by auto
qed

text \<open>
  Claim C8, as the specification states it, asks for the elapsed time in milliseconds.
  In the example world the client answers after 1500 milliseconds and the result carries
  the string \<open>1.50\<close>, which is not 1500.
\<close>

theorem duration_counterexample:
  "fst (uploadFileToS3 demo_world ''hello.txt'' ''uploads/hello.txt'' no_options [])
     = Inr (Success ''uploads/hello.txt''
             ''https://johnk-files-2026.s3.eu-north-1.amazonaws.com/uploads/hello.txt''
             (Some ''abc123'') ''1.50'') \<and>
   elapsed (send demo_world (sends [])
      (uploadParams demo_world ''hello.txt'' ''uploads/hello.txt'' no_options (Buffer ''hello''))) = 1500 \<and>
   ''1.50'' \<noteq> show_nat 1500"
  by (simp add: demo_hello_upload demo_accepts show_nat_1500)

subsection \<open>Retrying\<close>

lemma sleeps_append [simp]: "sleeps (tr @ tr') = sleeps tr @ sleeps tr'"
  by (induction tr rule: sleeps.induct) simp_all

lemma calls_append [simp]: "calls (tr @ tr') = calls tr @ calls tr'"
  by (induction tr rule: calls.induct) simp_all

lemma upload_trace:
  "\<exists>evs. snd (uploadFileToS3 w filePath s3Key opts tr) = tr @ Call filePath s3Key # evs \<and>
         sleeps evs = [] \<and> calls evs = []"
  by (auto simp: uploadFileToS3_def upload_try_def Let_def split: sum.splits prod.splits)

lemma upload_failure_shape:
  assumes "uploadFileToS3 w filePath s3Key opts tr = (Inr result, tr')" and "\<not> success result"
  shows "\<exists>m. result = Failure m filePath"
  using assms
  by (auto simp: uploadFileToS3_def upload_try_def Let_def split: sum.splits prod.splits if_splits)

lemma retry_fail_from:
  assumes "j \<le> maxRetries"
    and "\<forall>n. j \<le> n \<and> n < maxRetries \<longrightarrow>
           \<not> (\<exists>r. attempt_result w filePath s3Key tr n = Inr r \<and> success r)"
  shows "retry_from w filePath s3Key maxRetries (Suc j) lastError (after_attempts w filePath s3Key tr j)
     = (Inl (Error (''Upload failed after '' @ show_nat maxRetries @ '' attempts: '' @
           to_string (if j = maxRetries then lastError
                      else LastString (res_error (projr (attempt_result w filePath s3Key tr (maxRetries - 1))))))),
        after_attempts w filePath s3Key tr maxRetries)"
  using assms
proof (induction "maxRetries - j" arbitrary: j lastError)
  case 0
  then have "j = maxRetries" by simp
  then show ?case by (simp add: retry_from.simps)
next
  case (Suc d)
  then have lt: "j < maxRetries" by simp
  let ?tr = "after_attempts w filePath s3Key tr j"
  obtain r tr' where u: "uploadFileToS3 w filePath s3Key no_options ?tr = (Inr r, tr')"
    using upload_returns by blast
  have ar: "attempt_result w filePath s3Key tr j = Inr r"
    by (simp add: attempt_result_def u)
  have tr': "tr' = after_attempts w filePath s3Key tr (Suc j)"
    by (simp add: u)
  have nosucc: "\<not> success r"
    using Suc.prems(2) lt ar by auto
  have "retry_from w filePath s3Key maxRetries (Suc j) lastError ?tr
      = retry_from w filePath s3Key maxRetries (Suc (Suc j)) (LastString (res_error r)) tr'"
    using lt u nosucc by (subst retry_from.simps) simp
  then have step: "retry_from w filePath s3Key maxRetries (Suc j) lastError ?tr
      = retry_from w filePath s3Key maxRetries (Suc (Suc j)) (LastString (res_error r))
          (after_attempts w filePath s3Key tr (Suc j))"
    unfolding tr' .
  have d: "d = maxRetries - Suc j" using Suc.hyps(2) by simp
  have le: "Suc j \<le> maxRetries" using lt by simp
  have rest: "\<forall>n. Suc j \<le> n \<and> n < maxRetries \<longrightarrow>
           \<not> (\<exists>r. attempt_result w filePath s3Key tr n = Inr r \<and> success r)"
    using Suc.prems(2) by (meson Suc_leD)
  have ih: "retry_from w filePath s3Key maxRetries (Suc (Suc j)) (LastString (res_error r))
              (after_attempts w filePath s3Key tr (Suc j))
     = (Inl (Error (''Upload failed after '' @ show_nat maxRetries @ '' attempts: '' @
           to_string (if Suc j = maxRetries then LastString (res_error r)
                      else LastString (res_error (projr (attempt_result w filePath s3Key tr (maxRetries - 1))))))),
        after_attempts w filePath s3Key tr maxRetries)"
    by (rule Suc.hyps(1) [OF d le rest])
  have last: "Suc j = maxRetries \<Longrightarrow> attempt_result w filePath s3Key tr (maxRetries - 1) = Inr r"
    using ar by auto
  show ?case
    using lt step ih last by (auto simp del: after_attempts.simps)
qed

text \<open>
  Claim C4. For every file, key and \<open>maxRetries\<close> of at least one, when none of the
  \<open>maxRetries\<close> attempts returns a success, \<open>uploadWithRetry\<close> throws: its outcome
  is an error, not a failure result, with the message \<open>Upload failed after N attempts: \<close>
  followed by the error of the last attempt.
\<close>

theorem retries_exhausted:
  assumes "1 \<le> maxRetries"
    and "\<forall>n<maxRetries. \<not> (\<exists>r. attempt_result w filePath s3Key tr n = Inr r \<and> success r)"
  shows "\<exists>m. attempt_result w filePath s3Key tr (maxRetries - 1) = Inr (Failure m filePath) \<and>
             uploadWithRetry w filePath s3Key maxRetries tr
               = (Inl (Error (''Upload failed after '' @ show_nat maxRetries @ '' attempts: '' @ m)),
                  after_attempts w filePath s3Key tr maxRetries)"
proof -
  let ?n = "maxRetries - 1"
  obtain r tr' where u: "uploadFileToS3 w filePath s3Key no_options (after_attempts w filePath s3Key tr ?n) = (Inr r, tr')"
    using upload_returns by blast
  have ar: "attempt_result w filePath s3Key tr ?n = Inr r"
    using u by (simp add: attempt_result_def)
  have "\<not> success r" using assms ar by (metis One_nat_def Suc_le_eq diff_less zero_less_one)
  then obtain m where m: "r = Failure m filePath"
    using upload_failure_shape [OF u] by blast
  have "retry_from w filePath s3Key maxRetries (Suc 0) LastUndefined (after_attempts w filePath s3Key tr 0)
     = (Inl (Error (''Upload failed after '' @ show_nat maxRetries @ '' attempts: '' @
           to_string (if 0 = maxRetries then LastUndefined
                      else LastString (res_error (projr (attempt_result w filePath s3Key tr (maxRetries - 1))))))),
        after_attempts w filePath s3Key tr maxRetries)"
    by (rule retry_fail_from) (use assms in auto)
  then show ?thesis
    using assms(1) ar m by (auto simp: uploadWithRetry_def)
qed

theorem retries_exhausted_witness:
  "(1::nat) \<le> 3 \<and>
   attempt_result demo_world ''secret.txt'' ''private/secret.txt'' [] 0
     = Inr (Failure ''Access Denied'' ''secret.txt'') \<and>
   attempt_result demo_world ''secret.txt'' ''private/secret.txt'' [] 1
     = Inr (Failure ''Access Denied'' ''secret.txt'') \<and>
   attempt_result demo_world ''secret.txt'' ''private/secret.txt'' [] 2
     = Inr (Failure ''Access Denied'' ''secret.txt'') \<and>
   fst (uploadWithRetry demo_world ''secret.txt'' ''private/secret.txt'' 3 [])
      = Inl (Error (''Upload failed after '' @ show_nat 3 @ '' attempts: Access Denied''))"
proof -
  have a: "(1::nat) \<le> 3" by simp
  have r: "attempt_result demo_world ''secret.txt'' ''private/secret.txt'' [] n
             = Inr (Failure ''Access Denied'' ''secret.txt'')" for n
    by (simp add: attempt_result_def demo_secret_upload)
  have b: "\<forall>n<3. \<not> (\<exists>r. attempt_result demo_world ''secret.txt'' ''private/secret.txt'' [] n = Inr r
                          \<and> success r)"
    by (simp add: r)
  show ?thesis
    using a r retries_exhausted [OF a b] by auto
qed

text \<open>No run of the retry loop ever waits: the single upload returns its failures.\<close>

lemma retry_never_sleeps:
  "sleeps (snd (retry_from w filePath s3Key maxRetries attempt lastError tr)) = sleeps tr"
proof (induction "Suc maxRetries - attempt" arbitrary: attempt lastError tr)
  case 0
  then show ?case by (simp add: retry_from.simps)
next
  case (Suc d)
  then have le: "attempt \<le> maxRetries" by simp
  obtain r tr' where u: "uploadFileToS3 w filePath s3Key no_options tr = (Inr r, tr')"
    using upload_returns by blast
  obtain evs where evs: "tr' = tr @ Call filePath s3Key # evs" "sleeps evs = []"
    using upload_trace [of w filePath s3Key no_options tr] u by auto
  have s: "sleeps tr' = sleeps tr" using evs by simp
  have d: "d = Suc maxRetries - (attempt + 1)" using Suc.hyps(2) by simp
  show ?case
  proof (cases "success r")
    case True
    then show ?thesis using le u s by (subst retry_from.simps) simp
  next
    case False
    then show ?thesis
      using le u s Suc.hyps(1) [OF d, of "LastString (res_error r)" tr']
      by (subst retry_from.simps) simp
  qed
qed

text \<open>
  Claim C1. With \<open>maxRetries = 3\<close> and a client that refuses every request, the
  upload is called three times and then the error is thrown, but the trace holds no wait
  at all, where the claim has waits of 2000 and 4000 milliseconds. The backoff sits in the
  \<open>catch\<close> of the loop, and \<open>uploadFileToS3\<close> never throws.
\<close>

theorem retry_without_backoff:
  "fst (uploadWithRetry demo_world ''secret.txt'' ''private/secret.txt'' 3 [])
     = Inl (Error ''Upload failed after 3 attempts: Access Denied'') \<and>
   calls (snd (uploadWithRetry demo_world ''secret.txt'' ''private/secret.txt'' 3 []))
     = [(''secret.txt'', ''private/secret.txt''), (''secret.txt'', ''private/secret.txt''),
        (''secret.txt'', ''private/secret.txt'')] \<and>
   sleeps (snd (uploadWithRetry demo_world ''secret.txt'' ''private/secret.txt'' 3 [])) = [] \<and>
   sleeps (snd (uploadWithRetry demo_world ''secret.txt'' ''private/secret.txt'' 3 [])) \<noteq> [2000, 4000]"
  by (simp add: uploadWithRetry_def retry_from.simps demo_secret_upload show_nat_3)

subsection \<open>Walking a directory\<close>

lemma promise_all_Inr: "promise_all (map Inr vs) = Inr vs"
  by (induction vs) simp_all

lemma upload_calls:
  "calls (snd (uploadFileToS3 w filePath s3Key opts tr)) = calls tr @ [(filePath, s3Key)]"
  using upload_trace [of w filePath s3Key opts tr] by auto

lemma rel_files_nonempty: "[] \<notin> set (rel_files files)"
  by (induction files rule: rel_files.induct) auto

lemma key_of_single: "key_of P [file] = prefixed P file"
  by (simp add: key_of_def prefixed_def)

lemma slash_join_Cons: "rel \<noteq> [] \<Longrightarrow> slash_join (file # rel) = file @ ''/'' @ slash_join rel"
  by (cases rel) simp_all

lemma key_of_Cons:
  "file \<noteq> [] \<Longrightarrow> rel \<noteq> [] \<Longrightarrow> key_of (prefixed P file) rel = key_of P (file # rel)"
  by (simp add: key_of_def prefixed_def slash_join_Cons)

lemma task_of_single:
  "task_of w dirPath P [file] = (path_join w dirPath file, prefixed P file)"
  by (simp add: task_of_def local_path_def key_of_single)

lemma task_of_Cons:
  "file \<noteq> [] \<Longrightarrow> rel \<noteq> [] \<Longrightarrow>
   task_of w (path_join w dirPath file) (prefixed P file) rel = task_of w dirPath P (file # rel)"
  by (simp add: task_of_def local_path_def key_of_Cons)

lemma task_of_sub:
  assumes "file \<noteq> []" and "set rels \<subseteq> set (rel_files sub)"
  shows "map (task_of w (path_join w dirPath file) (prefixed P file)) rels
           = map (task_of w dirPath P) (map ((#) file) rels)"
proof -
  have "\<forall>rel \<in> set rels. rel \<noteq> []"
    using rel_files_nonempty [of sub] assms(2) by auto
  then show ?thesis
    using assms(1) by (simp add: task_of_Cons)
qed

lemma walked_nil: "walked w [] dirPath P tr tr True 0"
  by (simp add: walked_def)

lemma walked_stat: "walked w ((file, StatThrows e) # rest) dirPath P tr tr False 0"
  by (simp add: walked_def)

lemma walked_unreadable: "walked w ((file, IsDirectory (Inl e)) # rest) dirPath P tr tr False 0"
  by (simp add: walked_def)

lemma walked_other:
  "walked w rest dirPath P tr tr' c n \<Longrightarrow> walked w ((file, IsOther) # rest) dirPath P tr tr' c n"
  by (simp add: walked_def)

lemma walked_file:
  assumes "calls tr1 = calls tr @ [(path_join w dirPath file, prefixed P file)]"
    and "walked w rest dirPath P tr1 tr' c n"
  shows "walked w ((file, IsFile) # rest) dirPath P tr tr' c (Suc n)"
  using assms by (simp add: walked_def task_of_single)

lemma walked_dir_abort:
  assumes "walked w files (path_join w dirPath file) (prefixed P file) tr tr' False n"
  shows "walked w ((file, IsDirectory (Inr files)) # rest) dirPath P tr tr' False n"
proof -
  have n: "n \<le> length (rel_files files)" using assms by (simp add: walked_def)
  have t: "take n (map ((#) file) (rel_files files) @ rel_files rest)
             = map ((#) file) (take n (rel_files files))"
    using n by (simp add: take_map)
  have s: "set (take n (rel_files files)) \<subseteq> set (rel_files files)"
    by (rule set_take_subset)
  show ?thesis
    using assms n t task_of_sub [OF _ s, of "file" w dirPath P]
    by (auto simp: walked_def)
qed

lemma walked_dir_cont:
  assumes "walked w files (path_join w dirPath file) (prefixed P file) tr tr1 True n1"
    and "walked w rest dirPath P tr1 tr' c n2"
  shows "walked w ((file, IsDirectory (Inr files)) # rest) dirPath P tr tr' c (n1 + n2)"
proof -
  have n1: "n1 = length (rel_files files)" using assms(1) by (simp add: walked_def)
  have s: "set (rel_files files) \<subseteq> set (rel_files files)" by simp
  show ?thesis
    using assms n1 task_of_sub [OF _ s, of "file" w dirPath P]
    by (auto simp: walked_def)
qed

lemma directory_from_entries:
  assumes "entries_walked w entries dirPath P [] tr"
  shows "directory_walked w entries dirPath P tr"
proof -
  let ?e = "upload_entries w entries dirPath P [] tr"
  let ?d = "uploadDirectory w (Inr entries) dirPath P tr"
  obtain n where n: "walked w entries dirPath P tr (snd ?e) (\<not> isl (fst ?e)) n"
    using assms by (auto simp: entries_walked_def)
  have tr: "snd ?d = snd ?e"
    by (cases ?e) (auto split: sum.splits)
  have c: "\<not> isl (fst ?d) \<Longrightarrow> \<not> isl (fst ?e)"
    by (cases ?e) (auto split: sum.splits)
  have w: "walked w entries dirPath P tr (snd ?d) (\<not> isl (fst ?d)) n"
    using n c unfolding tr walked_def by blast
  have ok: "walk_ok entries \<longrightarrow>
        (\<exists>results. fst ?d = Inr results \<and> length results = length (rel_files entries))"
  proof
    assume "walk_ok entries"
    then obtain results where r: "fst ?e = Inr (map Inr results)"
        "length results = length (rel_files entries)"
      using assms by (auto simp: entries_walked_def)
    obtain tr' where t: "?e = (Inr (map Inr results), tr')"
      using r(1) by (cases ?e) simp
    have "fst ?d = Inr results" by (simp add: t promise_all_Inr)
    then show "\<exists>results. fst ?d = Inr results \<and> length results = length (rel_files entries)"
      using r(2) by blast
  qed
  show ?thesis
    unfolding directory_walked_def using w ok by blast
qed

lemma walk_walked:
  "(\<forall>files. (d :: js_error + (string \<times> dirent) list) = Inr files
      \<longrightarrow> directory_walked w files dirPath P tr)"
  "entries_walked w entries dirPath P uploadPromises tr"
proof (induction w d dirPath P tr and w entries dirPath P uploadPromises tr
       rule: uploadDirectory_upload_entries.induct)
  case (1 w e dirPath s3Prefix tr)
  then show ?case by simp
next
  case (2 w files dirPath s3Prefix tr)
  then show ?case by (auto intro: directory_from_entries)
next
  case (3 w dirPath s3Prefix uploadPromises tr)
  then show ?case
    using walked_nil [of w dirPath s3Prefix tr] by (auto simp: entries_walked_def)
next
  case (4 w name e rest dirPath s3Prefix uploadPromises tr)
  then show ?case
    using walked_stat [of w name e rest dirPath s3Prefix tr] by (auto simp: entries_walked_def)
next
  case (5 w name rest dirPath s3Prefix uploadPromises tr)
  let ?fp = "path_join w dirPath name" and ?key = "prefixed s3Prefix name"
  obtain r tr1 where u: "uploadFileToS3 w ?fp ?key no_options tr = (Inr r, tr1)"
    using upload_returns by blast
  have c: "calls tr1 = calls tr @ [(?fp, ?key)]"
    using upload_calls [of w ?fp ?key no_options tr] u by simp
  have step: "upload_entries w ((name, IsFile) # rest) dirPath s3Prefix uploadPromises tr
        = upload_entries w rest dirPath s3Prefix (uploadPromises @ [Inr r]) tr1"
    by (simp add: u)
  have ih: "entries_walked w rest dirPath s3Prefix (uploadPromises @ [Inr r]) tr1"
    using "5.IH" [of "Inr r" tr1] u by simp
  let ?e = "upload_entries w rest dirPath s3Prefix (uploadPromises @ [Inr r]) tr1"
  obtain n where n: "walked w rest dirPath s3Prefix tr1 (snd ?e) (\<not> isl (fst ?e)) n"
    using ih by (auto simp: entries_walked_def)
  have a: "walked w ((name, IsFile) # rest) dirPath s3Prefix tr (snd ?e) (\<not> isl (fst ?e)) (Suc n)"
    by (rule walked_file [OF c n])
  have b: "walk_ok ((name, IsFile) # rest) \<longrightarrow>
        (\<exists>results. fst ?e = Inr (uploadPromises @ map Inr results) \<and>
                   length results = length (rel_files ((name, IsFile) # rest)))"
  proof
    assume "walk_ok ((name, IsFile) # rest)"
    then obtain results where rs: "fst ?e = Inr ((uploadPromises @ [Inr r]) @ map Inr results)"
        "length results = length (rel_files rest)"
      using ih by (auto simp: entries_walked_def)
    show "\<exists>results. fst ?e = Inr (uploadPromises @ map Inr results) \<and>
                   length results = length (rel_files ((name, IsFile) # rest))"
      using rs by (intro exI [of _ "r # results"]) simp
  qed
  show ?case
    unfolding entries_walked_def step using a b by blast
next
  case (6 w name sub rest dirPath s3Prefix uploadPromises tr)
  let ?fp = "path_join w dirPath name" and ?key = "prefixed s3Prefix name"
  let ?lhs = "upload_entries w ((name, IsDirectory sub) # rest) dirPath s3Prefix uploadPromises tr"
  show ?case
  proof (cases sub)
    case (Inl e)
    have "?lhs = (Inl e, tr)" by (simp add: Inl)
    then show ?thesis
      using walked_unreadable [of w name e rest dirPath s3Prefix tr]
      by (auto simp: entries_walked_def Inl)
  next
    case (Inr files)
    let ?d = "uploadDirectory w sub ?fp ?key tr"
    have dw: "directory_walked w files ?fp ?key tr"
      using "6.IH"(1) Inr by simp
    then obtain n1 where n1: "walked w files ?fp ?key tr (snd ?d) (\<not> isl (fst ?d)) n1"
      by (auto simp: directory_walked_def Inr)
    have rf: "rel_files ((name, IsDirectory sub) # rest)
                = map ((#) name) (rel_files files) @ rel_files rest"
      by (simp add: Inr)
    have wk: "walk_ok ((name, IsDirectory sub) # rest) = (walk_ok files \<and> walk_ok rest)"
      by (simp add: Inr)
    show ?thesis
    proof (cases "fst ?d")
      case (Inl e)
      then obtain tr1 where t: "?d = (Inl e, tr1)" by (cases ?d) simp
      have step: "?lhs = (Inl e, tr1)" by (simp add: t)
      have "walked w files ?fp ?key tr tr1 False n1"
        using n1 t by (simp add: walked_def)
      then have a: "walked w ((name, IsDirectory sub) # rest) dirPath s3Prefix tr tr1 False n1"
        unfolding \<open>sub = Inr files\<close> by (rule walked_dir_abort)
      have b: "\<not> walk_ok files"
        using dw Inl by (auto simp: directory_walked_def \<open>sub = Inr files\<close>)
      show ?thesis
        unfolding entries_walked_def step wk using a b by auto
    next
      case (Inr subResults)
      then obtain tr1 where t: "?d = (Inr subResults, tr1)" by (cases ?d) simp
      let ?e = "upload_entries w rest dirPath s3Prefix (uploadPromises @ map Inr subResults) tr1"
      have step: "?lhs = ?e" by (simp add: t)
      have ih: "entries_walked w rest dirPath s3Prefix (uploadPromises @ map Inr subResults) tr1"
        using "6.IH"(2) [of "Inr subResults" tr1 subResults] t by simp
      obtain n2 where n2: "walked w rest dirPath s3Prefix tr1 (snd ?e) (\<not> isl (fst ?e)) n2"
        using ih by (auto simp: entries_walked_def)
      have "walked w files ?fp ?key tr tr1 True n1"
        using n1 t by simp
      then have a: "walked w ((name, IsDirectory sub) # rest) dirPath s3Prefix tr (snd ?e)
                      (\<not> isl (fst ?e)) (n1 + n2)"
        unfolding \<open>sub = Inr files\<close> using n2 by (rule walked_dir_cont)
      have b: "walk_ok files \<and> walk_ok rest \<longrightarrow>
        (\<exists>results. fst ?e = Inr (uploadPromises @ map Inr results) \<and>
                   length results = length (map ((#) name) (rel_files files) @ rel_files rest))"
      proof
        assume ok: "walk_ok files \<and> walk_ok rest"
        then obtain results where rs:
            "fst ?e = Inr ((uploadPromises @ map Inr subResults) @ map Inr results)"
            "length results = length (rel_files rest)"
          using ih by (auto simp: entries_walked_def)
        have sl: "length subResults = length (rel_files files)"
          using dw ok t by (auto simp: directory_walked_def \<open>sub = Inr files\<close>)
        show "\<exists>results. fst ?e = Inr (uploadPromises @ map Inr results) \<and>
                   length results = length (map ((#) name) (rel_files files) @ rel_files rest)"
          using rs sl by (intro exI [of _ "subResults @ results"]) simp
      qed
      show ?thesis
        unfolding entries_walked_def step wk rf using a b rf by auto
    qed
  qed
next
  case (7 w name rest dirPath s3Prefix uploadPromises tr)
  then show ?case
    by (auto simp: entries_walked_def intro: walked_other)
qed

lemma walked_calls:
  assumes "directory_walked w entries dirPath P tr" and "names_nonempty entries"
  shows "(\<exists>n. calls (snd (uploadDirectory w (Inr entries) dirPath P tr))
                = calls tr @ map (task_of w dirPath P) (take n (rel_files entries))) \<and>
         (walk_ok entries \<longrightarrow>
            calls (snd (uploadDirectory w (Inr entries) dirPath P tr))
              = calls tr @ map (task_of w dirPath P) (rel_files entries))"
proof -
  let ?d = "uploadDirectory w (Inr entries) dirPath P tr"
  obtain n where n: "walked w entries dirPath P tr (snd ?d) (\<not> isl (fst ?d)) n"
    using assms(1) by (auto simp: directory_walked_def)
  have a: "calls (snd ?d) = calls tr @ map (task_of w dirPath P) (take n (rel_files entries))"
    using n assms(2) by (simp add: walked_def)
  have b: "walk_ok entries \<longrightarrow> n = length (rel_files entries)"
  proof
    assume "walk_ok entries"
    then have "\<not> isl (fst ?d)"
      using assms(1) by (auto simp: directory_walked_def)
    then show "n = length (rel_files entries)"
      using n by (simp add: walked_def)
  qed
  show ?thesis using a b by auto
qed

text \<open>
  Claim C5. For every listing without an empty name and every prefix \<open>P\<close>, the
  uploads the walk calls are those of the regular files in the order of the listing, each
  with its local path and the key \<open>P/a/b/c.ext\<close>, or \<open>a/b/c.ext\<close> under the empty
  prefix, for the file at \<open>a/b/c.ext\<close>: of the first files up to the place where a
  \<open>stat\<close> or \<open>readdir\<close> throws, and of all of them when none does. For
  \<open>root/{a.txt, sub/b.txt}\<close> under \<open>uploads\<close> the keys are \<open>uploads/a.txt\<close> and
  \<open>uploads/sub/b.txt\<close>.
\<close>

theorem destination_keys:
  assumes "names_nonempty entries"
  shows "(\<exists>n. calls (snd (uploadDirectory w (Inr entries) dirPath P tr))
                = calls tr @ map (\<lambda>rel. (local_path w dirPath rel,
                       if P = [] then slash_join rel else P @ ''/'' @ slash_join rel))
                     (take n (rel_files entries))) \<and>
         (walk_ok entries \<longrightarrow>
            calls (snd (uploadDirectory w (Inr entries) dirPath P tr))
              = calls tr @ map (\<lambda>rel. (local_path w dirPath rel,
                       if P = [] then slash_join rel else P @ ''/'' @ slash_join rel))
                     (rel_files entries))"
proof -
  have t: "task_of w dirPath P = (\<lambda>rel. (local_path w dirPath rel,
                       if P = [] then slash_join rel else P @ ''/'' @ slash_join rel))"
    by (rule ext) (simp add: task_of_def key_of_def)
  have "directory_walked w entries dirPath P tr"
    using walk_walked(1) [of "Inr entries" w dirPath P tr] by simp
  then show ?thesis
    using walked_calls [OF _ assms, of w dirPath P tr] unfolding t by blast
qed

theorem destination_keys_witness:
  "walk_ok demo_tree \<and> names_nonempty demo_tree \<and>
   rel_files demo_tree = [[''a.txt''], [''sub'', ''b.txt'']] \<and>
   set (map snd (calls (snd (uploadDirectory demo_world (Inr demo_tree) ''root'' ''uploads'' []))))
     = {''uploads/a.txt'', ''uploads/sub/b.txt''} \<and>
   map snd (calls (snd (uploadDirectory demo_world (Inr demo_tree) ''root'' [] [])))
     = [''a.txt'', ''sub/b.txt'']"
proof -
  have a: "walk_ok demo_tree" by (simp add: demo_tree_def)
  have b: "names_nonempty demo_tree" by (simp add: demo_tree_def)
  have c: "rel_files demo_tree = [[''a.txt''], [''sub'', ''b.txt'']]" by (simp add: demo_tree_def)
  show ?thesis
    using a b c destination_keys [OF b, of demo_world "''root''" "''uploads''" "[]"]
      destination_keys [OF b, of demo_world "''root''" "[]" "[]"]
    by simp
qed

lemma other_entry_skipped:
  "upload_entries w (before @ (file, IsOther) # rest) dirPath P uploadPromises tr
     = upload_entries w (before @ rest) dirPath P uploadPromises tr"
proof (induction before arbitrary: uploadPromises tr)
  case Nil
  then show ?case by simp
next
  case (Cons entry before)
  obtain name d where entry: "entry = (name, d)" by (cases entry)
  show ?case
  proof (cases d)
    case (StatThrows e)
    then show ?thesis by (simp add: entry)
  next
    case IsFile
    then show ?thesis by (simp add: entry Cons.IH split: prod.splits)
  next
    case (IsDirectory sub)
    then show ?thesis by (simp add: entry Cons.IH split: prod.splits sum.splits)
  next
    case IsOther
    then show ?thesis by (simp add: entry Cons.IH)
  qed
qed

text \<open>
  Claim C9. An entry that \<open>stat\<close> reports as neither a regular file nor a directory
  changes nothing: the walk of a listing with such an entry anywhere in it returns the
  same results and leaves the same trace as the walk of the listing without it, and the
  entry is not among the files.
\<close>

theorem special_entries_skipped:
  "upload_entries w (before @ (file, IsOther) # rest) dirPath P uploadPromises tr
     = upload_entries w (before @ rest) dirPath P uploadPromises tr \<and>
   uploadDirectory w (Inr (before @ (file, IsOther) # rest)) dirPath P tr
     = uploadDirectory w (Inr (before @ rest)) dirPath P tr \<and>
   rel_files (before @ (file, IsOther) # rest) = rel_files (before @ rest)"
proof -
  have "rel_files (before @ (file, IsOther) # rest) = rel_files (before @ rest)"
    by (induction before rule: rel_files.induct) simp_all
  then show ?thesis
    by (simp add: other_entry_skipped)
qed

theorem special_entries_skipped_witness:
  "uploadDirectory demo_world
      (Inr [(''a.txt'', IsFile), (''ipc.sock'', IsOther),
            (''sub'', IsDirectory (Inr [(''b.txt'', IsFile)]))]) ''root'' ''uploads'' []
     = uploadDirectory demo_world (Inr demo_tree) ''root'' ''uploads'' []"
  using special_entries_skipped [of demo_world "[(''a.txt'', IsFile)]" "''ipc.sock''"
          "[(''sub'', IsDirectory (Inr [(''b.txt'', IsFile)]))]" "''root''" "''uploads''" "[]" "[]"]
  by (simp add: demo_tree_def)








subsection \<open>Batches\<close>













end
